theory Spec2Isabelle
  imports Complex_Main
begin

section \<open>JavaScript numbers\<close>

text \<open>
  A JavaScript number is modelled as either \<open>NaN\<close> or a real number. Rounding, signed
  zeros and the two infinities are outside the model; what is kept is the behaviour the
  timeline code relies on: arithmetic and \<open>Math.max\<close>/\<open>Math.min\<close> return \<open>NaN\<close> as soon
  as one operand is \<open>NaN\<close>.
\<close>

datatype jsnum = NaN | Num real

fun jadd :: "jsnum \<Rightarrow> jsnum \<Rightarrow> jsnum" where
  "jadd (Num a) (Num b) = Num (a + b)"
| "jadd _ _ = NaN"

fun jsub :: "jsnum \<Rightarrow> jsnum \<Rightarrow> jsnum" where
  "jsub (Num a) (Num b) = Num (a - b)"
| "jsub _ _ = NaN"

fun jmul :: "jsnum \<Rightarrow> jsnum \<Rightarrow> jsnum" where
  "jmul (Num a) (Num b) = Num (a * b)"
| "jmul _ _ = NaN"

fun Math_max :: "jsnum \<Rightarrow> jsnum \<Rightarrow> jsnum" where
  "Math_max (Num a) (Num b) = Num (max a b)"
| "Math_max _ _ = NaN"

fun Math_min :: "jsnum \<Rightarrow> jsnum \<Rightarrow> jsnum" where
  "Math_min (Num a) (Num b) = Num (min a b)"
| "Math_min _ _ = NaN"

text \<open>The real number a JavaScript number stands for (\<open>0\<close> is returned for \<open>NaN\<close>).\<close>

fun the_num :: "jsnum \<Rightarrow> real" where
  "the_num (Num a) = a"
| "the_num NaN = 0"

section \<open>The timeline document (types/timeline.ts)\<close>

record SpringConfig =
  stiffness :: real
  damping :: real
  mass :: real

text \<open>A parameter value: \<open>number | string | boolean\<close>.\<close>

datatype pval = PNum real | PStr string | PBool bool

text \<open>
  \<open>frame\<close> is a JavaScript number read from JSON: nothing in the sources keeps it
  non-negative or whole (the editor's number input stores what is typed). \<open>params\<close> is a
  \<open>Record<string, ...>\<close>, a finite map; the optional \<open>spring\<close> is \<open>None\<close> when absent.
\<close>

record TimelineEvent =
  ev_id :: string
  frame :: real
  componentId :: string
  action :: string
  params :: "string \<rightharpoonup> pval"
  spring :: "SpringConfig option"

record TimelineData =
  version :: nat
  fps :: nat
  durationFrames :: nat
  events :: "TimelineEvent list"

section \<open>DashboardComposition: the expansion accumulator\<close>

text \<open>
  Remotion's \<open>spring({fps, frame, config, from: 0, to: 1})\<close> is a library function; it is a
  parameter \<open>spr fps frame config\<close> of every definition that calls it, and is taken to
  return a number, possibly \<open>NaN\<close>, for every argument.
\<close>

type_synonym spring_fn = "nat \<Rightarrow> real \<Rightarrow> SpringConfig \<Rightarrow> jsnum"

definition DEFAULT_SPRING :: SpringConfig where
  "DEFAULT_SPRING = \<lparr>stiffness = 280, damping = 24, mass = 1\<rparr>"

text \<open>\<open>e.spring ?? DEFAULT_SPRING\<close>\<close>

definition springConfig :: "TimelineEvent \<Rightarrow> SpringConfig" where
  "springConfig e = (case spring e of None \<Rightarrow> DEFAULT_SPRING | Some c \<Rightarrow> c)"

text \<open>The progress of one event at the current frame \<open>t\<close>: the argument of both reducers.\<close>

definition progress :: "spring_fn \<Rightarrow> nat \<Rightarrow> nat \<Rightarrow> TimelineEvent \<Rightarrow> jsnum" where
  "progress spr fp t e = spr fp (real t - frame e) (springConfig e)"

definition glassEvents :: "TimelineData \<Rightarrow> nat \<Rightarrow> TimelineEvent list" where
  "glassEvents doc t =
     filter (\<lambda>e. componentId e = ''GlassPanel'' \<and> frame e \<le> t) (events doc)"

definition expandEvents :: "TimelineData \<Rightarrow> nat \<Rightarrow> TimelineEvent list" where
  "expandEvents doc t = filter (\<lambda>e. action e = ''Expand'') (glassEvents doc t)"

definition collapseEvents :: "TimelineData \<Rightarrow> nat \<Rightarrow> TimelineEvent list" where
  "collapseEvents doc t = filter (\<lambda>e. action e = ''Collapse'') (glassEvents doc t)"

definition expandSum :: "spring_fn \<Rightarrow> TimelineData \<Rightarrow> nat \<Rightarrow> nat \<Rightarrow> jsnum" where
  "expandSum spr doc fp t =
     foldl (\<lambda>sum e. jadd sum (progress spr fp t e)) (Num 0) (expandEvents doc t)"

definition collapseSum :: "spring_fn \<Rightarrow> TimelineData \<Rightarrow> nat \<Rightarrow> nat \<Rightarrow> jsnum" where
  "collapseSum spr doc fp t =
     foldl (\<lambda>sum e. jadd sum (progress spr fp t e)) (Num 0) (collapseEvents doc t)"

definition netExpansion :: "spring_fn \<Rightarrow> TimelineData \<Rightarrow> nat \<Rightarrow> nat \<Rightarrow> jsnum" where
  "netExpansion spr doc fp t =
     Math_max (Num 0) (Math_min (Num 1) (jsub (expandSum spr doc fp t) (collapseSum spr doc fp t)))"

definition sizeMultiplier :: "spring_fn \<Rightarrow> TimelineData \<Rightarrow> nat \<Rightarrow> nat \<Rightarrow> jsnum" where
  "sizeMultiplier spr doc fp t = jadd (Num 1) (jmul (netExpansion spr doc fp t) (Num (8 / 10)))"

section \<open>DashboardComposition: the discrete flag\<close>

definition lastExpandFrame :: "TimelineData \<Rightarrow> nat \<Rightarrow> real" where
  "lastExpandFrame doc t = foldl (\<lambda>mx e. max mx (frame e)) (- 1) (expandEvents doc t)"

definition lastCollapseFrame :: "TimelineData \<Rightarrow> nat \<Rightarrow> real" where
  "lastCollapseFrame doc t = foldl (\<lambda>mx e. max mx (frame e)) (- 1) (collapseEvents doc t)"

definition isExpanded :: "TimelineData \<Rightarrow> nat \<Rightarrow> bool" where
  "isExpanded doc t = (lastExpandFrame doc t > lastCollapseFrame doc t)"

section \<open>DashboardComposition: the panel position\<close>

text \<open>
  \<open>[...].sort((a, b) => a.frame - b.frame)\<close> is a stable sort by frame, as
  \<^const>\<open>sort_key\<close> is: events of equal frame keep their document order.
\<close>

definition firedPositionEvents :: "TimelineData \<Rightarrow> nat \<Rightarrow> TimelineEvent list" where
  "firedPositionEvents doc t =
     sort_key frame
       (filter (\<lambda>e. componentId e = ''GlassPanel'' \<and> action e = ''SetPosition'' \<and> frame e \<le> t)
          (events doc))"

text \<open>
  \<open>Number(v)\<close> on a parameter value. The conversion of a string (ECMAScript's
  StringToNumber, which yields \<open>NaN\<close> for a string that is no numeral) is the parameter \<open>sn\<close>.
\<close>

fun Number :: "(string \<Rightarrow> jsnum) \<Rightarrow> pval \<Rightarrow> jsnum" where
  "Number sn (PNum r) = Num r"
| "Number sn (PBool b) = Num (if b then 1 else 0)"
| "Number sn (PStr s) = sn s"

text \<open>\<open>Number(e.params[k] ?? dflt)\<close>, for a default that is a number already.\<close>

definition coord :: "(string \<Rightarrow> jsnum) \<Rightarrow> TimelineEvent \<Rightarrow> string \<Rightarrow> jsnum \<Rightarrow> jsnum" where
  "coord sn e k dflt = (case params e k of None \<Rightarrow> dflt | Some v \<Rightarrow> Number sn v)"

definition defaultX :: "real \<Rightarrow> jsnum" where
  "defaultX width = Num ((width - 259) / 2)"

definition defaultY :: "real \<Rightarrow> jsnum" where
  "defaultY height = Num ((height - 124) / 2)"

text \<open>\<open>start + (target - start) * t\<close>\<close>

definition lerp :: "jsnum \<Rightarrow> jsnum \<Rightarrow> jsnum \<Rightarrow> jsnum" where
  "lerp start target p = jadd start (jmul (jsub target start) p)"

text \<open>The pair \<open>(panelX, panelY)\<close>; \<open>None\<close> is JavaScript's \<open>undefined\<close>.\<close>

definition panelXY ::
  "spring_fn \<Rightarrow> (string \<Rightarrow> jsnum) \<Rightarrow> TimelineData \<Rightarrow> nat \<Rightarrow> real \<Rightarrow> real \<Rightarrow> nat
     \<Rightarrow> jsnum option \<times> jsnum option" where
  "panelXY spr sn doc fp width height t =
     (let firedPositionEvents = firedPositionEvents doc t in
      if length firedPositionEvents > 0 then
        let latest = firedPositionEvents ! (length firedPositionEvents - 1);
            prev = (if length firedPositionEvents > 1
                    then Some (firedPositionEvents ! (length firedPositionEvents - 2)) else None);
            targetX = coord sn latest ''x'' (defaultX width);
            targetY = coord sn latest ''y'' (defaultY height);
            startX = (case prev of Some p \<Rightarrow> coord sn p ''x'' (defaultX width)
                      | None \<Rightarrow> defaultX width);
            startY = (case prev of Some p \<Rightarrow> coord sn p ''y'' (defaultY height)
                      | None \<Rightarrow> defaultY height);
            p = spr fp (real t - frame latest) (springConfig latest)
        in (Some (lerp startX targetX p), Some (lerp startY targetY p))
      else (None, None))"

section \<open>DashboardComposition: the props handed to App\<close>

record TimelineState =
  st_sizeMultiplier :: jsnum
  st_isExpanded :: bool
  panelX :: "jsnum option"
  panelY :: "jsnum option"

text \<open>
  What the component reads through hooks: \<open>useCurrentFrame()\<close>, \<open>useVideoConfig()\<close>, and
  the two \<open>delayRender\<close> handles it keeps in React state and memo.
\<close>

record RenderContext =
  ctx_frame :: nat
  ctx_fps :: nat
  ctx_width :: real
  ctx_height :: real
  ctx_handle :: nat
  ctx_frameHandle :: nat

text \<open>
  The props of \<open><App .../>\<close>; \<open>onReady\<close> and \<open>onFrameReady\<close> are the closures
  \<open>() => continueRender(h)\<close>, recorded by their handle \<open>h\<close>. The \<open>Sequence\<close> markers built
  by \<open>getSegments\<close> label the studio timeline only and are not part of the model.
\<close>

record AppProps =
  timelineState :: TimelineState
  overrideWidth :: real
  overrideHeight :: real
  onReady :: nat
  onFrameReady :: nat

definition DashboardComposition ::
  "spring_fn \<Rightarrow> (string \<Rightarrow> jsnum) \<Rightarrow> TimelineData \<Rightarrow> RenderContext \<Rightarrow> AppProps" where
  "DashboardComposition spr sn timelineData ctx =
     (let t = ctx_frame ctx; fp = ctx_fps ctx; width = ctx_width ctx; height = ctx_height ctx;
          xy = panelXY spr sn timelineData fp width height t
      in \<lparr>timelineState =
            \<lparr>st_sizeMultiplier = sizeMultiplier spr timelineData fp t,
             st_isExpanded = isExpanded timelineData t,
             panelX = fst xy, panelY = snd xy\<rparr>,
          overrideWidth = width, overrideHeight = height,
          onReady = ctx_handle ctx, onFrameReady = ctx_frameHandle ctx\<rparr>)"

section \<open>Saving and loading the timeline document\<close>





subsection \<open>The POST handler of the timeline-api plugin\<close>




subsection \<open>Root: the composition registered with Remotion\<close>

text \<open>\<open>DESIGN_SYSTEM_DEFAULTS.canvasWidth\<close> and \<open>canvasHeight\<close> (config/designSystem.ts).\<close>

definition canvasWidth :: real where
  "canvasWidth = 3840"

definition canvasHeight :: real where
  "canvasHeight = 536"



subsection \<open>The editor's load of the document\<close>







section \<open>App: the mount effect that builds the renderer\<close>

datatype 'a outcome = Returned 'a | Thrown

datatype signal = RendererCreated | TextureRequested | LoopStarted | FrameRendered | OnReadyCalled

text \<open>
  What the effect meets: whether the canvas ref is set, whether
  \<open>new MultiPassRenderer(...)\<close> throws, whether the promise of \<open>loadTextureFromURL\<close>
  resolves, whether \<open>doRender()\<close> throws in the \<open>then\<close> callback, and whether the host
  passed an \<open>onReady\<close> prop. The handler itself is taken not to throw.
\<close>

record MountEnv =
  canvasPresent :: bool
  rendererThrows :: bool
  textureLoads :: bool
  doRenderThrows :: bool
  onReadyGiven :: bool

text \<open>\<open>onReadyRef.current?.()\<close>\<close>

definition callOnReady :: "MountEnv \<Rightarrow> signal list" where
  "callOnReady env = (if onReadyGiven env then [OnReadyCalled] else [])"

definition newMultiPassRenderer :: "MountEnv \<Rightarrow> unit outcome" where
  "newMultiPassRenderer env = (if rendererThrows env then Thrown else Returned ())"

definition doRender :: "MountEnv \<Rightarrow> signal list outcome" where
  "doRender env = (if doRenderThrows env then Thrown else Returned [FrameRendered])"

text \<open>The \<open>then\<close> callback: store the texture, \<open>doRender()\<close>, \<open>onReadyRef.current?.()\<close>.\<close>

definition onTextureLoaded :: "MountEnv \<Rightarrow> signal list outcome" where
  "onTextureLoaded env =
     (case doRender env of Thrown \<Rightarrow> Thrown | Returned sigs \<Rightarrow> Returned (sigs @ callOnReady env))"

text \<open>
  \<open>loadTextureFromURL(...).then(...).catch(() => onReadyRef.current?.())\<close>: the \<open>catch\<close>
  handler runs when the load rejects and when the \<open>then\<close> callback throws.
\<close>

definition textureSettled :: "MountEnv \<Rightarrow> signal list" where
  "textureSettled env =
     (if textureLoads env then
        (case onTextureLoaded env of Thrown \<Rightarrow> callOnReady env | Returned sigs \<Rightarrow> sigs)
      else callOnReady env)"

text \<open>
  The effect with its promise run to completion: the signals in the order they happen,
  or \<open>Thrown\<close> if an exception escapes.
\<close>

definition mountEffect :: "MountEnv \<Rightarrow> signal list outcome" where
  "mountEffect env =
     (if \<not> canvasPresent env then Returned []
      else
        (case newMultiPassRenderer env of
           Thrown \<Rightarrow> Returned (callOnReady env)
         | Returned _ \<Rightarrow>
             Returned ([RendererCreated, TextureRequested, LoopStarted] @ textureSettled env)))"

section \<open>The shader pass graph\<close>

record Shader =
  vertex :: string
  fragment :: string

record PassConfig =
  name :: string
  shader :: Shader
  inputs :: "(string \<times> string) list"
  outputToScreen :: "bool option"

text \<open>
  The pass list handed to \<open>new MultiPassRenderer\<close>. A shader source is recorded by the name
  of the module constant that holds it; an omitted \<open>inputs\<close> is the empty mapping and an
  omitted \<open>outputToScreen\<close> is \<open>None\<close>.
\<close>

definition passConfigs :: "PassConfig list" where
  "passConfigs =
     [\<lparr>name = ''bgPass'', shader = \<lparr>vertex = ''VertexShader'', fragment = ''FragmentBgShader''\<rparr>,
       inputs = [], outputToScreen = None\<rparr>,
      \<lparr>name = ''vBlurPass'',
       shader = \<lparr>vertex = ''VertexShader'', fragment = ''FragmentBgVblurShader''\<rparr>,
       inputs = [(''u_prevPassTexture'', ''bgPass'')], outputToScreen = None\<rparr>,
      \<lparr>name = ''hBlurPass'',
       shader = \<lparr>vertex = ''VertexShader'', fragment = ''FragmentBgHblurShader''\<rparr>,
       inputs = [(''u_prevPassTexture'', ''vBlurPass'')], outputToScreen = None\<rparr>,
      \<lparr>name = ''mainPass'',
       shader = \<lparr>vertex = ''VertexShader'', fragment = ''FragmentMainShader''\<rparr>,
       inputs = [(''u_blurredBg'', ''hBlurPass''), (''u_bg'', ''bgPass'')],
       outputToScreen = Some True\<rparr>]"

text \<open>Every input of every pass names a pass declared strictly before it.\<close>

fun inputsDeclaredEarlier :: "string list \<Rightarrow> PassConfig list \<Rightarrow> bool" where
  "inputsDeclaredEarlier seen [] = True"
| "inputsDeclaredEarlier seen (p # ps) =
     (list_all (\<lambda>(u, src). src \<in> set seen) (inputs p)
      \<and> inputsDeclaredEarlier (seen @ [name p]) ps)"

definition toScreen :: "PassConfig \<Rightarrow> bool" where
  "toScreen p = (outputToScreen p = Some True)"

datatype pass_error = MissingInput string string

text \<open>
  Modelled from the spec: the class MultiPassRenderer (utils/GLUtils) is not among the
  sources. Section 4.4 has the construction validate that every \<open>inputs\<close> reference
  names an earlier pass, and the execution iterate the passes in declared order and bind,
  for each pass, the input textures from the named producing passes. The model walks the
  list in declared order, refuses a pass one of whose inputs names no pass that has run,
  and returns the passes in the order they ran.
\<close>

fun execute :: "string list \<Rightarrow> PassConfig list \<Rightarrow> pass_error + string list" where
  "execute executed [] = Inr executed"
| "execute executed (p # ps) =
     (case find (\<lambda>(u, src). src \<notin> set executed) (inputs p) of
        Some (u, src) \<Rightarrow> Inl (MissingInput (name p) src)
      | None \<Rightarrow> execute (executed @ [name p]) ps)"

section \<open>The resolver in the specification's words\<close>

text \<open>
  The specification has every event of the component and action class contribute: its
  spring progress once it has fired, and 0 while its frame is still ahead.
\<close>

definition spec_contribution :: "spring_fn \<Rightarrow> nat \<Rightarrow> nat \<Rightarrow> TimelineEvent \<Rightarrow> jsnum" where
  "spec_contribution spr fp t e = (if frame e \<le> t then progress spr fp t e else Num 0)"

definition actionEvents :: "string \<Rightarrow> TimelineData \<Rightarrow> TimelineEvent list" where
  "actionEvents a doc = filter (\<lambda>e. componentId e = ''GlassPanel'' \<and> action e = a) (events doc)"

text \<open>
  The events of the component and of one action class that have fired by frame \<open>t\<close>, in
  document order, selected from the document's event list.
\<close>

definition spec_fired :: "string \<Rightarrow> TimelineData \<Rightarrow> nat \<Rightarrow> TimelineEvent list" where
  "spec_fired a doc t =
     filter (\<lambda>e. componentId e = ''GlassPanel'' \<and> action e = a \<and> frame e \<le> real t) (events doc)"

text \<open>
  The spring progress of one event at frame \<open>t\<close> (section 4.1, elapsed = queryTime -
  event.frame), taken with the event's own configuration, or with stiffness 280, damping
  24, mass 1 when the event has none.
\<close>

definition spec_progress :: "spring_fn \<Rightarrow> nat \<Rightarrow> nat \<Rightarrow> TimelineEvent \<Rightarrow> jsnum" where
  "spec_progress spr fp t e =
     spr fp (real t - frame e)
       (case spring e of None \<Rightarrow> \<lparr>stiffness = 280, damping = 24, mass = 1\<rparr> | Some c \<Rightarrow> c)"

text \<open>A sum as JavaScript takes it: from 0, adding left to right.\<close>

definition spec_sum :: "jsnum list \<Rightarrow> jsnum" where
  "spec_sum xs = foldl jadd (Num 0) xs"


section \<open>Sample inputs\<close>

text \<open>A spring that is at rest on its start value up to the trigger and overshoots to 6/5 after it.\<close>

definition overshootSpring :: spring_fn where
  "overshootSpring fp f c = Num (if f \<le> 0 then 0 else 6 / 5)"

definition glassEvent :: "string \<Rightarrow> real \<Rightarrow> string \<Rightarrow> (string \<rightharpoonup> pval) \<Rightarrow> TimelineEvent" where
  "glassEvent i f a ps =
     \<lparr>ev_id = i, frame = f, componentId = ''GlassPanel'', action = a, params = ps, spring = None\<rparr>"

definition timelineOf :: "TimelineEvent list \<Rightarrow> TimelineData" where
  "timelineOf es = \<lparr>version = 1, fps = 60, durationFrames = 360, events = es\<rparr>"

text \<open>Two overlapping Expand events and a later Collapse event.\<close>

definition doubleExpand :: TimelineData where
  "doubleExpand = timelineOf
     [glassEvent ''evt-001'' 60 ''Expand'' Map.empty,
      glassEvent ''evt-002'' 70 ''Expand'' Map.empty,
      glassEvent ''evt-003'' 240 ''Collapse'' Map.empty]"

definition sameFrame :: TimelineData where
  "sameFrame = timelineOf
     [glassEvent ''evt-001'' 60 ''Expand'' Map.empty,
      glassEvent ''evt-002'' 60 ''Collapse'' Map.empty]"



text \<open>An Expand event on frame -5 and a Collapse event on frame -7.\<close>

definition negativeFrames :: TimelineData where
  "negativeFrames = timelineOf
     [glassEvent ''evt-001'' (- 5) ''Expand'' Map.empty,
      glassEvent ''evt-002'' (- 7) ''Collapse'' Map.empty]"

text \<open>The context of the composition as registered, at 60 fps, with the given frame and handle.\<close>

definition studioContext :: "nat \<Rightarrow> nat \<Rightarrow> RenderContext" where
  "studioContext t h =
     \<lparr>ctx_frame = t, ctx_fps = 60, ctx_width = canvasWidth, ctx_height = canvasHeight,
      ctx_handle = h, ctx_frameHandle = Suc h\<rparr>"

text \<open>A spring evaluator that yields NaN for a configuration without positive stiffness and mass.\<close>

definition nanOnInvalid :: spring_fn where
  "nanOnInvalid fp f c =
     (if stiffness c \<le> 0 \<or> mass c \<le> 0 then NaN else Num (if f \<le> 0 then 0 else 1))"

text \<open>One Expand event on frame 0 whose spring has mass 0.\<close>

definition masslessExpand :: TimelineData where
  "masslessExpand = timelineOf
     [(glassEvent ''evt-001'' 0 ''Expand'' Map.empty)
        \<lparr>spring := Some \<lparr>stiffness = 280, damping = 24, mass = 0\<rparr>\<rparr>]"


text \<open>The renderer cannot be built; the background texture cannot be loaded.\<close>

definition noGpu :: MountEnv where
  "noGpu = \<lparr>canvasPresent = True, rendererThrows = True, textureLoads = False,
            doRenderThrows = False, onReadyGiven = True\<rparr>"

definition noTexture :: MountEnv where
  "noTexture = \<lparr>canvasPresent = True, rendererThrows = False, textureLoads = False,
                doRenderThrows = False, onReadyGiven = True\<rparr>"

section \<open>The expansion accumulator\<close>

lemma foldl_jadd_numbers:
  "(\<And>e. e \<in> set xs \<Longrightarrow> g e \<noteq> NaN) \<Longrightarrow>
   foldl (\<lambda>sum e. jadd sum (g e)) (Num a) xs = Num (a + (\<Sum>e\<leftarrow>xs. the_num (g e)))"
proof (induction xs arbitrary: a)
  case Nil
  show ?case by simp
next
  case (Cons x xs)
  from Cons.prems have "g x \<noteq> NaN" by simp
  then obtain r where r: "g x = Num r" by (cases "g x") auto
  have "foldl (\<lambda>sum e. jadd sum (g e)) (Num (a + r)) xs
          = Num ((a + r) + (\<Sum>e\<leftarrow>xs. the_num (g e)))"
    using Cons.prems by (intro Cons.IH) simp
  with r show ?case by (simp add: add.assoc)
qed

lemma foldl_jadd_NaN: "foldl (\<lambda>sum e. jadd sum (g e)) NaN xs = NaN"
  by (induction xs) simp_all

lemma foldl_jadd_absorbs:
  "e \<in> set xs \<Longrightarrow> g e = NaN \<Longrightarrow> foldl (\<lambda>sum e. jadd sum (g e)) s xs = NaN"
proof (induction xs arbitrary: s)
  case Nil
  then show ?case by simp
next
  case (Cons x xs)
  show ?case
  proof (cases "x = e")
    case True
    with Cons.prems have "jadd s (g x) = NaN" by (cases s) simp_all
    then show ?thesis by (simp add: foldl_jadd_NaN)
  next
    case False
    with Cons.prems have "e \<in> set xs" by simp
    from Cons.IH [OF this Cons.prems(2)] show ?thesis by simp
  qed
qed

lemma jsub_NaN [simp]: "jsub NaN s = NaN" "jsub s NaN = NaN"
  by (cases s, simp_all)+

lemma jmul_NaN [simp]: "jmul s NaN = NaN"
  by (cases s) simp_all

lemma jadd_NaN [simp]: "jadd s NaN = NaN"
  by (cases s) simp_all

lemma netExpansion_NaN:
  assumes "e \<in> set (expandEvents doc t) \<union> set (collapseEvents doc t)"
    and "progress spr fp t e = NaN"
  shows "netExpansion spr doc fp t = NaN"
proof -
  from assms(1) have "expandSum spr doc fp t = NaN \<or> collapseSum spr doc fp t = NaN"
    unfolding expandSum_def collapseSum_def
    using foldl_jadd_absorbs [of e _ "progress spr fp t", OF _ assms(2)] by auto
  then show ?thesis by (auto simp: netExpansion_def)
qed

text \<open>Facts about sums and the clamp that do not depend on the composition.\<close>

lemma spec_sum_numbers:
  assumes "\<forall>x \<in> set xs. x \<noteq> NaN"
  shows "\<exists>a. spec_sum xs = Num a"
proof -
  have "foldl (\<lambda>sum e. jadd sum e) (Num 0) xs = Num (0 + (\<Sum>e\<leftarrow>xs. the_num e))"
    using assms by (intro foldl_jadd_numbers) simp
  then show ?thesis by (simp add: spec_sum_def)
qed

lemma spec_sum_NaN:
  assumes "NaN \<in> set xs"
  shows "spec_sum xs = NaN"
  using foldl_jadd_absorbs [OF assms, of "\<lambda>x. x" "Num 0"] by (simp add: spec_sum_def)

lemma clamp_range:
  assumes "Math_max (Num 0) (Math_min (Num 1) x) = Num r"
  shows "0 \<le> r \<and> r \<le> 1"
proof (cases x)
  case NaN
  with assms show ?thesis by simp
next
  case (Num y)
  with assms have "r = max 0 (min 1 y)" by simp
  then show ?thesis by simp
qed

lemma doubleExpand_fired:
  "spec_fired ''Expand'' doubleExpand 100 =
     [glassEvent ''evt-001'' 60 ''Expand'' Map.empty, glassEvent ''evt-002'' 70 ''Expand'' Map.empty]"
  "spec_fired ''Collapse'' doubleExpand 100 = []"
  by (simp_all add: spec_fired_def doubleExpand_def timelineOf_def glassEvent_def)

text \<open>
  C1, as amended. Take the Expand and the Collapse events of GlassPanel in the document
  whose frame is at most the current frame, and the sum of their spring progresses as
  JavaScript adds them, from 0 in document order. When the difference of the two sums is a
  number, the accumulated expansion progress is that number clamped to the interval from 0
  to 1. When every one of these progresses is a number, the accumulated progress is a
  number between 0 and 1, however many events contribute and however far a progress
  overshoots. When one of these progresses is NaN, the accumulated progress is NaN.
\<close>

theorem C1_netExpansion_clamped_sum:
  "(\<forall>d. jsub (spec_sum (map (spec_progress spr fp t) (spec_fired ''Expand'' doc t)))
             (spec_sum (map (spec_progress spr fp t) (spec_fired ''Collapse'' doc t))) = Num d
        \<longrightarrow> netExpansion spr doc fp t = Num (max 0 (min 1 d)))
   \<and> ((\<forall>e \<in> set (spec_fired ''Expand'' doc t) \<union> set (spec_fired ''Collapse'' doc t).
          spec_progress spr fp t e \<noteq> NaN)
        \<longrightarrow> (\<exists>r. netExpansion spr doc fp t = Num r \<and> 0 \<le> r \<and> r \<le> 1))
   \<and> ((\<exists>e \<in> set (spec_fired ''Expand'' doc t) \<union> set (spec_fired ''Collapse'' doc t).
          spec_progress spr fp t e = NaN)
        \<longrightarrow> netExpansion spr doc fp t = NaN)"
proof -
  have ee: "expandEvents doc t = spec_fired ''Expand'' doc t"
    by (auto simp: expandEvents_def glassEvents_def spec_fired_def intro: filter_cong)
  have ce: "collapseEvents doc t = spec_fired ''Collapse'' doc t"
    by (auto simp: collapseEvents_def glassEvents_def spec_fired_def intro: filter_cong)
  have pr: "progress spr fp t e = spec_progress spr fp t e" for e
    by (simp add: progress_def spec_progress_def springConfig_def DEFAULT_SPRING_def
          split: option.split)
  have es: "expandSum spr doc fp t
              = spec_sum (map (spec_progress spr fp t) (spec_fired ''Expand'' doc t))"
    by (simp add: expandSum_def spec_sum_def foldl_map ee pr)
  have cs: "collapseSum spr doc fp t
              = spec_sum (map (spec_progress spr fp t) (spec_fired ''Collapse'' doc t))"
    by (simp add: collapseSum_def spec_sum_def foldl_map ce pr)
  let ?E = "map (spec_progress spr fp t) (spec_fired ''Expand'' doc t)"
  let ?C = "map (spec_progress spr fp t) (spec_fired ''Collapse'' doc t)"
  have net: "netExpansion spr doc fp t
               = Math_max (Num 0) (Math_min (Num 1) (jsub (spec_sum ?E) (spec_sum ?C)))"
    by (simp add: netExpansion_def es cs)
  show ?thesis
  proof (intro conjI allI impI)
    fix d
    assume "jsub (spec_sum ?E) (spec_sum ?C) = Num d"
    then show "netExpansion spr doc fp t = Num (max 0 (min 1 d))"
      by (simp add: net)
  next
    assume "\<forall>e \<in> set (spec_fired ''Expand'' doc t) \<union> set (spec_fired ''Collapse'' doc t).
              spec_progress spr fp t e \<noteq> NaN"
    then have E: "\<forall>x \<in> set ?E. x \<noteq> NaN" and C: "\<forall>x \<in> set ?C. x \<noteq> NaN"
      by auto
    from spec_sum_numbers [OF E] obtain a where a: "spec_sum ?E = Num a" by blast
    from spec_sum_numbers [OF C] obtain b where b: "spec_sum ?C = Num b" by blast
    from a b
    have "netExpansion spr doc fp t = Num (max 0 (min 1 (a - b)))"
      by (simp add: net)
    then show "\<exists>r. netExpansion spr doc fp t = Num r \<and> 0 \<le> r \<and> r \<le> 1"
      by simp
  next
    assume "\<exists>e \<in> set (spec_fired ''Expand'' doc t) \<union> set (spec_fired ''Collapse'' doc t).
              spec_progress spr fp t e = NaN"
    then obtain e where e: "e \<in> set (spec_fired ''Expand'' doc t) \<union> set (spec_fired ''Collapse'' doc t)"
      and nan: "spec_progress spr fp t e = NaN"
      by blast
    from e have "spec_progress spr fp t e \<in> set ?E \<or> spec_progress spr fp t e \<in> set ?C"
      by auto
    with nan have "NaN \<in> set ?E \<or> NaN \<in> set ?C" by simp
    then have "spec_sum ?E = NaN \<or> spec_sum ?C = NaN"
      using spec_sum_NaN [of ?E] spec_sum_NaN [of ?C] by blast
    then show "netExpansion spr doc fp t = NaN"
      by (auto simp: net)
  qed
qed

text \<open>
  Two Expand events that both overshoot to 6/5 add up to 12/5 at frame 100, no Collapse
  event has fired, and the net expansion is clamped to 1.
\<close>

theorem C1_witness:
  "jsub (spec_sum (map (spec_progress overshootSpring 60 100) (spec_fired ''Expand'' doubleExpand 100)))
        (spec_sum (map (spec_progress overshootSpring 60 100) (spec_fired ''Collapse'' doubleExpand 100)))
     = Num (12 / 5)
   \<and> netExpansion overshootSpring doubleExpand 60 100 = Num 1"
proof -
  have d: "jsub (spec_sum (map (spec_progress overshootSpring 60 100) (spec_fired ''Expand'' doubleExpand 100)))
        (spec_sum (map (spec_progress overshootSpring 60 100) (spec_fired ''Collapse'' doubleExpand 100)))
     = Num (12 / 5)"
    by (simp add: doubleExpand_fired spec_sum_def spec_progress_def overshootSpring_def glassEvent_def)
  have h: "\<forall>e \<in> set (spec_fired ''Expand'' doubleExpand 100) \<union> set (spec_fired ''Collapse'' doubleExpand 100).
             spec_progress overshootSpring 60 100 e \<noteq> NaN"
    by (simp add: spec_progress_def overshootSpring_def)
  from C1_netExpansion_clamped_sum [of overshootSpring 60 100 doubleExpand] d h
  have "netExpansion overshootSpring doubleExpand 60 100 = Num (max 0 (min 1 (12 / 5)))"
    by blast
  with d show ?thesis by simp
qed

text \<open>
  An Expand event whose spring has mass 0, under an evaluator that yields NaN for it: at
  frame 30 the accumulated progress is NaN, which is no number between 0 and 1.
\<close>

theorem C1_counterexample:
  "netExpansion nanOnInvalid masslessExpand 60 30 = NaN
   \<and> netExpansion nanOnInvalid masslessExpand 60 30 \<notin> Num ` {0..1}"
proof -
  have "netExpansion nanOnInvalid masslessExpand 60 30 = NaN"
    by (simp add: netExpansion_def expandSum_def collapseSum_def expandEvents_def
          collapseEvents_def glassEvents_def masslessExpand_def timelineOf_def glassEvent_def
          progress_def springConfig_def nanOnInvalid_def)
  then show ?thesis by auto
qed

section \<open>No lookahead\<close>

lemma jadd_zero [simp]: "jadd s (Num 0) = s"
  by (cases s) simp_all

lemma foldl_contribution:
  "foldl (\<lambda>sum e. jadd sum (spec_contribution spr fp t e)) s
        (filter (\<lambda>e. componentId e = c \<and> action e = a) es)
   = foldl (\<lambda>sum e. jadd sum (progress spr fp t e)) s
        (filter (\<lambda>e. action e = a) (filter (\<lambda>e. componentId e = c \<and> frame e \<le> t) es))"
  by (induction es arbitrary: s) (simp_all add: spec_contribution_def)

lemma fired_empty:
  assumes "\<forall>e \<in> set (events doc). t < frame e"
  shows "glassEvents doc t = []"
  using assms by (auto simp: glassEvents_def filter_empty_conv)

text \<open>
  C5. An event whose frame is after the current frame contributes exactly 0: both sums of
  the composition are the sums over all Expand (Collapse) events of the component in which
  such an event counts 0. When no event of the document has fired yet, the net expansion is
  exactly 0.
\<close>

theorem C5_no_lookahead:
  "expandSum spr doc fp t
     = foldl (\<lambda>sum e. jadd sum (spec_contribution spr fp t e)) (Num 0) (actionEvents ''Expand'' doc)
   \<and> collapseSum spr doc fp t
     = foldl (\<lambda>sum e. jadd sum (spec_contribution spr fp t e)) (Num 0) (actionEvents ''Collapse'' doc)
   \<and> (\<forall>e \<in> set (events doc). t < frame e \<longrightarrow> spec_contribution spr fp t e = Num 0)
   \<and> ((\<forall>e \<in> set (events doc). t < frame e) \<longrightarrow> netExpansion spr doc fp t = Num 0)"
proof -
  have 1: "expandSum spr doc fp t
     = foldl (\<lambda>sum e. jadd sum (spec_contribution spr fp t e)) (Num 0) (actionEvents ''Expand'' doc)"
    by (simp add: expandSum_def expandEvents_def glassEvents_def actionEvents_def foldl_contribution)
  have 2: "collapseSum spr doc fp t
     = foldl (\<lambda>sum e. jadd sum (spec_contribution spr fp t e)) (Num 0) (actionEvents ''Collapse'' doc)"
    by (simp add: collapseSum_def collapseEvents_def glassEvents_def actionEvents_def foldl_contribution)
  have 3: "\<forall>e \<in> set (events doc). t < frame e \<longrightarrow> spec_contribution spr fp t e = Num 0"
    by (simp add: spec_contribution_def)
  have 4: "(\<forall>e \<in> set (events doc). t < frame e) \<longrightarrow> netExpansion spr doc fp t = Num 0"
    by (simp add: netExpansion_def expandSum_def collapseSum_def expandEvents_def
          collapseEvents_def fired_empty)
  from 1 2 3 4 show ?thesis by blast
qed

text \<open>
  At frame 59 nothing has fired and the net expansion is 0; at frame 65 only the Expand
  event of frame 60 counts.
\<close>

theorem C5_witness:
  "netExpansion overshootSpring doubleExpand 60 59 = Num 0
   \<and> expandSum overshootSpring doubleExpand 60 65 = Num (6 / 5)"
proof -
  have h: "\<forall>e \<in> set (events doubleExpand). 59 < frame e"
    by (simp add: doubleExpand_def timelineOf_def glassEvent_def)
  have "actionEvents ''Expand'' doubleExpand =
     [glassEvent ''evt-001'' 60 ''Expand'' Map.empty, glassEvent ''evt-002'' 70 ''Expand'' Map.empty]"
    by (simp add: actionEvents_def doubleExpand_def timelineOf_def glassEvent_def)
  with C5_no_lookahead [of overshootSpring doubleExpand 60 65] C5_no_lookahead [of overshootSpring doubleExpand 60 59] h
  show ?thesis
    by (simp add: spec_contribution_def progress_def overshootSpring_def glassEvent_def)
qed

section \<open>The size multiplier\<close>

text \<open>
  C10, as amended. Take the Expand and Collapse events of GlassPanel whose frame is at
  most the current frame. When every one of their spring progresses is a number, the net
  expansion is a number n between 0 and 1 and the size multiplier is 1 + n * 0.8, between
  1 and 1.8, however many Expand and Collapse events overlap. When one of these progresses
  is NaN, the size multiplier is NaN. A size multiplier that is a number always lies
  between 1 and 1.8.
\<close>

theorem C10_sizeMultiplier_range:
  "((\<forall>e \<in> set (spec_fired ''Expand'' doc t) \<union> set (spec_fired ''Collapse'' doc t).
       spec_progress spr fp t e \<noteq> NaN) \<longrightarrow>
      (\<exists>n. netExpansion spr doc fp t = Num n \<and> 0 \<le> n \<and> n \<le> 1
           \<and> sizeMultiplier spr doc fp t = Num (1 + n * (8 / 10))
           \<and> 1 \<le> 1 + n * (8 / 10) \<and> 1 + n * (8 / 10) \<le> 18 / 10))
   \<and> ((\<exists>e \<in> set (spec_fired ''Expand'' doc t) \<union> set (spec_fired ''Collapse'' doc t).
          spec_progress spr fp t e = NaN)
        \<longrightarrow> sizeMultiplier spr doc fp t = NaN)
   \<and> (\<forall>r. sizeMultiplier spr doc fp t = Num r \<longrightarrow> 1 \<le> r \<and> r \<le> 18 / 10)"
proof -
  have ee: "expandEvents doc t = spec_fired ''Expand'' doc t"
    by (auto simp: expandEvents_def glassEvents_def spec_fired_def intro: filter_cong)
  have ce: "collapseEvents doc t = spec_fired ''Collapse'' doc t"
    by (auto simp: collapseEvents_def glassEvents_def spec_fired_def intro: filter_cong)
  have pr: "progress spr fp t e = spec_progress spr fp t e" for e
    by (simp add: progress_def spec_progress_def springConfig_def DEFAULT_SPRING_def
          split: option.split)
  have es: "expandSum spr doc fp t
              = spec_sum (map (spec_progress spr fp t) (spec_fired ''Expand'' doc t))"
    by (simp add: expandSum_def spec_sum_def foldl_map ee pr)
  have cs: "collapseSum spr doc fp t
              = spec_sum (map (spec_progress spr fp t) (spec_fired ''Collapse'' doc t))"
    by (simp add: collapseSum_def spec_sum_def foldl_map ce pr)
  let ?E = "map (spec_progress spr fp t) (spec_fired ''Expand'' doc t)"
  let ?C = "map (spec_progress spr fp t) (spec_fired ''Collapse'' doc t)"
  have net: "netExpansion spr doc fp t
               = Math_max (Num 0) (Math_min (Num 1) (jsub (spec_sum ?E) (spec_sum ?C)))"
    by (simp add: netExpansion_def es cs)
  have size: "sizeMultiplier spr doc fp t = Num (1 + n * (8 / 10))"
    if "netExpansion spr doc fp t = Num n" for n
    using that by (simp add: sizeMultiplier_def)
  show ?thesis
  proof (intro conjI allI impI)
    assume "\<forall>e \<in> set (spec_fired ''Expand'' doc t) \<union> set (spec_fired ''Collapse'' doc t).
              spec_progress spr fp t e \<noteq> NaN"
    then have E: "\<forall>x \<in> set ?E. x \<noteq> NaN" and C: "\<forall>x \<in> set ?C. x \<noteq> NaN"
      by auto
    from spec_sum_numbers [OF E] obtain a where a: "spec_sum ?E = Num a" by blast
    from spec_sum_numbers [OF C] obtain b where b: "spec_sum ?C = Num b" by blast
    from a b
    have n: "netExpansion spr doc fp t = Num (max 0 (min 1 (a - b)))"
      by (simp add: net)
    from size [OF n] n
    show "\<exists>n. netExpansion spr doc fp t = Num n \<and> 0 \<le> n \<and> n \<le> 1
             \<and> sizeMultiplier spr doc fp t = Num (1 + n * (8 / 10))
             \<and> 1 \<le> 1 + n * (8 / 10) \<and> 1 + n * (8 / 10) \<le> 18 / 10"
      by (intro exI [of _ "max 0 (min 1 (a - b))"]) auto
  next
    assume "\<exists>e \<in> set (spec_fired ''Expand'' doc t) \<union> set (spec_fired ''Collapse'' doc t).
              spec_progress spr fp t e = NaN"
    then obtain e where e: "e \<in> set (spec_fired ''Expand'' doc t) \<union> set (spec_fired ''Collapse'' doc t)"
      and nan: "spec_progress spr fp t e = NaN"
      by blast
    from e have "spec_progress spr fp t e \<in> set ?E \<or> spec_progress spr fp t e \<in> set ?C"
      by auto
    with nan have "NaN \<in> set ?E \<or> NaN \<in> set ?C" by simp
    then have "spec_sum ?E = NaN \<or> spec_sum ?C = NaN"
      using spec_sum_NaN [of ?E] spec_sum_NaN [of ?C] by blast
    then have "netExpansion spr doc fp t = NaN"
      by (auto simp: net)
    then show "sizeMultiplier spr doc fp t = NaN" by (simp add: sizeMultiplier_def)
  next
    fix r
    assume r: "sizeMultiplier spr doc fp t = Num r"
    then obtain n where n: "netExpansion spr doc fp t = Num n"
      by (cases "netExpansion spr doc fp t") (simp_all add: sizeMultiplier_def)
    from n have "0 \<le> n \<and> n \<le> 1" using clamp_range by (simp add: net)
    with size [OF n] r show "1 \<le> r" "r \<le> 18 / 10"
      by auto
  qed
qed

text \<open>
  The multiplier is 1.8 under two overshooting Expand events and 1 before any event has
  fired.
\<close>

theorem C10_witness:
  "sizeMultiplier overshootSpring doubleExpand 60 100 = Num (18 / 10)
   \<and> sizeMultiplier overshootSpring doubleExpand 60 59 = Num 1"
proof -
  have h: "\<forall>e \<in> set (spec_fired ''Expand'' doubleExpand 100) \<union> set (spec_fired ''Collapse'' doubleExpand 100).
             spec_progress overshootSpring 60 100 e \<noteq> NaN"
    by (simp add: spec_progress_def overshootSpring_def)
  have h': "\<forall>e \<in> set (spec_fired ''Expand'' doubleExpand 59) \<union> set (spec_fired ''Collapse'' doubleExpand 59).
             spec_progress overshootSpring 60 59 e \<noteq> NaN"
    by (simp add: spec_progress_def overshootSpring_def)
  have n: "netExpansion overshootSpring doubleExpand 60 100 = Num 1"
    by (simp add: netExpansion_def expandSum_def collapseSum_def expandEvents_def
          collapseEvents_def glassEvents_def doubleExpand_def timelineOf_def glassEvent_def
          progress_def overshootSpring_def)
  have n': "netExpansion overshootSpring doubleExpand 60 59 = Num 0"
    by (simp add: netExpansion_def expandSum_def collapseSum_def expandEvents_def
          collapseEvents_def glassEvents_def doubleExpand_def timelineOf_def glassEvent_def)
  from C10_sizeMultiplier_range [of doubleExpand 100 overshootSpring 60] h
  have "\<exists>n. netExpansion overshootSpring doubleExpand 60 100 = Num n \<and> 0 \<le> n \<and> n \<le> 1
          \<and> sizeMultiplier overshootSpring doubleExpand 60 100 = Num (1 + n * (8 / 10))
          \<and> 1 \<le> 1 + n * (8 / 10) \<and> 1 + n * (8 / 10) \<le> 18 / 10"
    by blast
  with n have a: "sizeMultiplier overshootSpring doubleExpand 60 100 = Num (18 / 10)"
    by auto
  from C10_sizeMultiplier_range [of doubleExpand 59 overshootSpring 60] h'
  have "\<exists>n. netExpansion overshootSpring doubleExpand 60 59 = Num n \<and> 0 \<le> n \<and> n \<le> 1
          \<and> sizeMultiplier overshootSpring doubleExpand 60 59 = Num (1 + n * (8 / 10))
          \<and> 1 \<le> 1 + n * (8 / 10) \<and> 1 + n * (8 / 10) \<le> 18 / 10"
    by blast
  with n' have b: "sizeMultiplier overshootSpring doubleExpand 60 59 = Num 1"
    by auto
  from a b show ?thesis by simp
qed

text \<open>
  An Expand event whose spring has mass 0, under an evaluator that yields NaN for it: at
  frame 45 the size multiplier is NaN, which is no number between 1 and 1.8.
\<close>

theorem C10_counterexample:
  "sizeMultiplier nanOnInvalid masslessExpand 60 45 = NaN
   \<and> sizeMultiplier nanOnInvalid masslessExpand 60 45 \<notin> Num ` {1..18 / 10}"
proof -
  have "sizeMultiplier nanOnInvalid masslessExpand 60 45 = NaN"
    by (simp add: sizeMultiplier_def netExpansion_def expandSum_def collapseSum_def
          expandEvents_def collapseEvents_def glassEvents_def masslessExpand_def timelineOf_def
          glassEvent_def progress_def springConfig_def nanOnInvalid_def)
  then show ?thesis by auto
qed

section \<open>The expanded flag\<close>

lemma foldl_max_frame:
  "foldl (\<lambda>mx e. max mx (frame e)) a xs = Max (insert a (frame ` set xs))"
proof (induction xs arbitrary: a)
  case Nil
  show ?case by simp
next
  case (Cons x xs)
  let ?F = "frame ` set xs"
  have "Max (insert (max a (frame x)) ?F) = Max (insert a (insert (frame x) ?F))"
  proof (cases "?F = {}")
    case True
    then show ?thesis by simp
  next
    case False
    then show ?thesis by (simp add: max.assoc)
  qed
  with Cons.IH [of "max a (frame x)"] show ?case by simp
qed

text \<open>
  One running maximum started at -1 exceeds the other exactly when a frame above -1 on
  the first list is above every frame on the second.
\<close>

lemma last_writer:
  "foldl (\<lambda>mx e. max mx (frame e)) (- 1) cs < foldl (\<lambda>mx e. max mx (frame e)) (- 1) es
   \<longleftrightarrow> (\<exists>e \<in> set es. - 1 < frame e \<and> (\<forall>c \<in> set cs. frame c < frame e))"
proof -
  have "Max (insert (- 1) (frame ` set cs)) < Max (insert (- 1) (frame ` set es))
        \<longleftrightarrow> (\<exists>a \<in> insert (- 1) (frame ` set es). \<forall>b \<in> insert (- 1) (frame ` set cs). b < a)"
    by (simp add: Max_less_iff Max_gr_iff)
  also have "\<dots> \<longleftrightarrow> (\<exists>e \<in> set es. - 1 < frame e \<and> (\<forall>c \<in> set cs. frame c < frame e))"
    by auto
  finally show ?thesis by (simp add: foldl_max_frame)
qed

lemma latest_after:
  assumes "es \<noteq> []" and "\<forall>e \<in> set es. 0 \<le> frame e"
  shows "(\<exists>e \<in> set es. - 1 < frame e \<and> (\<forall>c \<in> set cs. frame c < frame e))
         \<longleftrightarrow> (cs = [] \<or> Max (frame ` set cs) < Max (frame ` set es))"
proof (cases "cs = []")
  case True
  from assms obtain e where "e \<in> set es" "0 \<le> frame e" by (cases es) auto
  then have "\<exists>e \<in> set es. - 1 < frame e" by force
  with True show ?thesis by simp
next
  case False
  have "Max (frame ` set cs) < Max (frame ` set es)
        \<longleftrightarrow> (\<exists>e \<in> set es. \<forall>c \<in> set cs. frame c < frame e)"
    using False assms(1) by (simp add: Max_less_iff Max_gr_iff)
  moreover have "(\<exists>e \<in> set es. - 1 < frame e \<and> (\<forall>c \<in> set cs. frame c < frame e))
        \<longleftrightarrow> (\<exists>e \<in> set es. \<forall>c \<in> set cs. frame c < frame e)"
    using assms(2) by force
  ultimately show ?thesis using False by simp
qed

text \<open>
  C2, as amended. The flag is true exactly when the document holds an Expand event of
  GlassPanel with a frame above -1 and at most the current frame that is strictly later
  than every Collapse event of GlassPanel with a frame at most the current frame; an event
  with a frame of -1 or less never sets it. When the fired Expand and Collapse events all
  have non-negative frames, this is: an Expand event has fired, and no Collapse event has
  fired or the latest fired Expand frame is strictly after the latest fired Collapse
  frame; the flag is false when no Expand event has fired, and false when the latest
  Expand and Collapse events share a frame.
\<close>

theorem C2_isExpanded_last_writer:
  "(isExpanded doc t \<longleftrightarrow>
      (\<exists>e \<in> set (events doc).
          componentId e = ''GlassPanel'' \<and> action e = ''Expand'' \<and> frame e \<le> real t \<and> - 1 < frame e
          \<and> (\<forall>c \<in> set (events doc).
                componentId c = ''GlassPanel'' \<and> action c = ''Collapse'' \<and> frame c \<le> real t
                \<longrightarrow> frame c < frame e)))
   \<and> ((\<forall>e \<in> set (spec_fired ''Expand'' doc t) \<union> set (spec_fired ''Collapse'' doc t). 0 \<le> frame e) \<longrightarrow>
        (isExpanded doc t \<longleftrightarrow>
           spec_fired ''Expand'' doc t \<noteq> [] \<and>
           (spec_fired ''Collapse'' doc t = [] \<or>
            Max (frame ` set (spec_fired ''Collapse'' doc t))
              < Max (frame ` set (spec_fired ''Expand'' doc t))))
        \<and> (spec_fired ''Expand'' doc t = [] \<longrightarrow> \<not> isExpanded doc t)
        \<and> (spec_fired ''Expand'' doc t \<noteq> [] \<and> spec_fired ''Collapse'' doc t \<noteq> [] \<and>
            Max (frame ` set (spec_fired ''Expand'' doc t))
              = Max (frame ` set (spec_fired ''Collapse'' doc t))
            \<longrightarrow> \<not> isExpanded doc t))"
proof -
  have ee: "expandEvents doc t = spec_fired ''Expand'' doc t"
    by (auto simp: expandEvents_def glassEvents_def spec_fired_def intro: filter_cong)
  have ce: "collapseEvents doc t = spec_fired ''Collapse'' doc t"
    by (auto simp: collapseEvents_def glassEvents_def spec_fired_def intro: filter_cong)
  have isExpanded_iff: "isExpanded doc t \<longleftrightarrow>
     (\<exists>e \<in> set (spec_fired ''Expand'' doc t). - 1 < frame e
        \<and> (\<forall>c \<in> set (spec_fired ''Collapse'' doc t). frame c < frame e))"
    by (simp add: isExpanded_def lastExpandFrame_def lastCollapseFrame_def last_writer ee ce)
  show ?thesis
  proof (intro conjI impI)
    show "isExpanded doc t \<longleftrightarrow>
        (\<exists>e \<in> set (events doc).
            componentId e = ''GlassPanel'' \<and> action e = ''Expand'' \<and> frame e \<le> real t \<and> - 1 < frame e
            \<and> (\<forall>c \<in> set (events doc).
                  componentId c = ''GlassPanel'' \<and> action c = ''Collapse'' \<and> frame c \<le> real t
                  \<longrightarrow> frame c < frame e))"
      unfolding isExpanded_iff by (auto simp: spec_fired_def)
  next
    assume nn: "\<forall>e \<in> set (spec_fired ''Expand'' doc t) \<union> set (spec_fired ''Collapse'' doc t). 0 \<le> frame e"
    show iff: "isExpanded doc t \<longleftrightarrow>
             spec_fired ''Expand'' doc t \<noteq> [] \<and>
             (spec_fired ''Collapse'' doc t = [] \<or>
              Max (frame ` set (spec_fired ''Collapse'' doc t))
                < Max (frame ` set (spec_fired ''Expand'' doc t)))"
    proof (cases "spec_fired ''Expand'' doc t = []")
      case True
      then show ?thesis by (simp add: isExpanded_iff)
    next
      case False
      from nn have "\<forall>e \<in> set (spec_fired ''Expand'' doc t). 0 \<le> frame e" by simp
      from latest_after [OF False this] False show ?thesis by (simp add: isExpanded_iff)
    qed
    show "\<not> isExpanded doc t" if "spec_fired ''Expand'' doc t = []"
      using that by (simp add: isExpanded_iff)
    show "\<not> isExpanded doc t"
      if "spec_fired ''Expand'' doc t \<noteq> [] \<and> spec_fired ''Collapse'' doc t \<noteq> [] \<and>
          Max (frame ` set (spec_fired ''Expand'' doc t))
            = Max (frame ` set (spec_fired ''Collapse'' doc t))"
      using that iff by simp
  qed
qed

text \<open>
  Expand and Collapse on the same frame: not expanded. Before the first Expand: not
  expanded. After two Expands: expanded. After the later Collapse: not expanded.
\<close>

theorem C2_witness:
  "\<not> isExpanded sameFrame 100 \<and> \<not> isExpanded doubleExpand 59
   \<and> isExpanded doubleExpand 100 \<and> \<not> isExpanded doubleExpand 300"
proof -
  have a: "spec_fired ''Expand'' sameFrame 100 = [glassEvent ''evt-001'' 60 ''Expand'' Map.empty]"
    "spec_fired ''Collapse'' sameFrame 100 = [glassEvent ''evt-002'' 60 ''Collapse'' Map.empty]"
    by (simp_all add: spec_fired_def sameFrame_def timelineOf_def glassEvent_def)
  have b: "spec_fired ''Expand'' doubleExpand 59 = []" "spec_fired ''Collapse'' doubleExpand 59 = []"
    by (simp_all add: spec_fired_def doubleExpand_def timelineOf_def glassEvent_def)
  have c: "spec_fired ''Expand'' doubleExpand 300 =
     [glassEvent ''evt-001'' 60 ''Expand'' Map.empty, glassEvent ''evt-002'' 70 ''Expand'' Map.empty]"
    "spec_fired ''Collapse'' doubleExpand 300 = [glassEvent ''evt-003'' 240 ''Collapse'' Map.empty]"
    by (simp_all add: spec_fired_def doubleExpand_def timelineOf_def glassEvent_def)
  from C2_isExpanded_last_writer [of sameFrame 100, THEN conjunct2]
    C2_isExpanded_last_writer [of doubleExpand 59, THEN conjunct2]
    C2_isExpanded_last_writer [of doubleExpand 100, THEN conjunct2]
    C2_isExpanded_last_writer [of doubleExpand 300, THEN conjunct2]
  show ?thesis by (simp add: a b c doubleExpand_fired glassEvent_def)
qed

text \<open>
  With an Expand event on frame -5 and a Collapse event on frame -7, both fired by frame
  10, the latest Expand is strictly after the latest Collapse, and the flag is false.
\<close>

theorem C2_counterexample:
  "map frame (spec_fired ''Expand'' negativeFrames 10) = [- 5]
   \<and> map frame (spec_fired ''Collapse'' negativeFrames 10) = [- 7]
   \<and> \<not> isExpanded negativeFrames 10"
  by (simp add: spec_fired_def isExpanded_def lastExpandFrame_def lastCollapseFrame_def
        expandEvents_def collapseEvents_def glassEvents_def negativeFrames_def timelineOf_def
        glassEvent_def)

section \<open>Chained positions\<close>




section \<open>Spring configurations are not validated\<close>

text \<open>
  C7, as amended. The composition does not check a spring configuration: the
  configuration of an event is handed to the spring evaluator as it stands, whatever its
  stiffness and mass. When the evaluator returns NaN for a fired Expand or Collapse event,
  the net expansion and the size multiplier of that frame are NaN; when it returns NaN for
  the latest fired position event, both panel coordinates are NaN.
\<close>

theorem C7_config_not_validated:
  "(\<forall>e c. spring e = Some c \<longrightarrow> progress spr fp t e = spr fp (real t - frame e) c)
   \<and> (\<forall>e \<in> set (expandEvents doc t) \<union> set (collapseEvents doc t).
        progress spr fp t e = NaN \<longrightarrow>
        netExpansion spr doc fp t = NaN \<and> sizeMultiplier spr doc fp t = NaN)
   \<and> (\<forall>pre l. firedPositionEvents doc t = pre @ [l] \<and> progress spr fp t l = NaN \<longrightarrow>
        panelXY spr sn doc fp w h t = (Some NaN, Some NaN))"
proof (intro conjI allI impI ballI)
  fix e :: TimelineEvent and c
  assume "spring e = Some c"
  then show "progress spr fp t e = spr fp (real t - frame e) c"
    by (simp add: progress_def springConfig_def)
next
  fix e
  assume "e \<in> set (expandEvents doc t) \<union> set (collapseEvents doc t)"
    and "progress spr fp t e = NaN"
  then show "netExpansion spr doc fp t = NaN" by (rule netExpansion_NaN)
  then show "sizeMultiplier spr doc fp t = NaN" by (simp add: sizeMultiplier_def)
next
  fix pre l
  assume a: "firedPositionEvents doc t = pre @ [l] \<and> progress spr fp t l = NaN"
  then have "spr fp (real t - frame l) (springConfig l) = NaN"
    by (simp add: progress_def)
  with a show "panelXY spr sn doc fp w h t = (Some NaN, Some NaN)"
    by (simp add: panelXY_def Let_def lerp_def)
qed

text \<open>An Expand event with mass 0, under an evaluator that yields NaN for it.\<close>

theorem C7_witness:
  "netExpansion nanOnInvalid masslessExpand 60 30 = NaN
   \<and> sizeMultiplier nanOnInvalid masslessExpand 60 30 = NaN"
proof -
  have f: "expandEvents masslessExpand 30 =
     [(glassEvent ''evt-001'' 0 ''Expand'' Map.empty)
        \<lparr>spring := Some \<lparr>stiffness = 280, damping = 24, mass = 0\<rparr>\<rparr>]"
    by (simp add: expandEvents_def glassEvents_def masslessExpand_def timelineOf_def glassEvent_def)
  have p: "progress nanOnInvalid 60 30
     ((glassEvent ''evt-001'' 0 ''Expand'' Map.empty)
        \<lparr>spring := Some \<lparr>stiffness = 280, damping = 24, mass = 0\<rparr>\<rparr>) = NaN"
    by (simp add: progress_def springConfig_def nanOnInvalid_def glassEvent_def)
  from C7_config_not_validated [of nanOnInvalid 60 30 masslessExpand] f p show ?thesis by simp
qed

text \<open>
  The composition renders frame 30 of that document without failing, and the size
  multiplier it hands to the rendering layer is NaN.
\<close>

theorem C7_counterexample:
  "st_sizeMultiplier (timelineState
     (DashboardComposition nanOnInvalid (\<lambda>s. NaN) masslessExpand (studioContext 30 1))) = NaN"
  by (simp add: DashboardComposition_def Let_def studioContext_def sizeMultiplier_def
        netExpansion_def expandSum_def collapseSum_def expandEvents_def collapseEvents_def
        glassEvents_def masslessExpand_def timelineOf_def glassEvent_def progress_def
        springConfig_def nanOnInvalid_def)


section \<open>Documents are not validated\<close>




section \<open>Readiness after a failure\<close>

text \<open>
  C8. With the canvas mounted and an onReady handler given: when building the renderer
  throws, or when the background texture fails to load, the effect lets no exception
  escape and calls onReady exactly once.
\<close>

theorem C8_onReady_once_on_failure:
  assumes "canvasPresent env" and "onReadyGiven env"
    and "rendererThrows env \<or> \<not> textureLoads env"
  shows "\<exists>sigs. mountEffect env = Returned sigs \<and> count_list sigs OnReadyCalled = 1"
  using assms
  by (auto simp: mountEffect_def newMultiPassRenderer_def textureSettled_def callOnReady_def)

text \<open>
  Without a renderer the only signal is onReady; without the texture the renderer, the
  load and the loop are started and onReady follows once.
\<close>

theorem C8_witness:
  "mountEffect noGpu = Returned [OnReadyCalled]
   \<and> mountEffect noTexture = Returned [RendererCreated, TextureRequested, LoopStarted, OnReadyCalled]"
proof -
  have "\<exists>sigs. mountEffect noGpu = Returned sigs \<and> count_list sigs OnReadyCalled = 1"
    by (rule C8_onReady_once_on_failure) (simp_all add: noGpu_def)
  moreover have "\<exists>sigs. mountEffect noTexture = Returned sigs \<and> count_list sigs OnReadyCalled = 1"
    by (rule C8_onReady_once_on_failure) (simp_all add: noTexture_def)
  ultimately show ?thesis
    by (simp add: mountEffect_def newMultiPassRenderer_def textureSettled_def callOnReady_def
          noGpu_def noTexture_def)
qed

section \<open>The declared pass order\<close>

text \<open>
  C9. The pipeline declares the four passes bgPass, vBlurPass, hBlurPass, mainPass in this
  order; vBlurPass reads bgPass, hBlurPass reads vBlurPass, mainPass reads hBlurPass and
  bgPass, so every input names a pass declared strictly earlier; only mainPass goes to the
  screen; and executing the list in declared order finds every input produced and runs
  the passes in exactly that order.
\<close>

theorem C9_pass_graph:
  "map name passConfigs = [''bgPass'', ''vBlurPass'', ''hBlurPass'', ''mainPass'']
   \<and> map (\<lambda>p. map snd (inputs p)) passConfigs
       = [[], [''bgPass''], [''vBlurPass''], [''hBlurPass'', ''bgPass'']]
   \<and> inputsDeclaredEarlier [] passConfigs
   \<and> map toScreen passConfigs = [False, False, False, True]
   \<and> execute [] passConfigs = Inr (map name passConfigs)"
  by (simp add: passConfigs_def toScreen_def)

end
